theory Spec2Isabelle
  imports Complex_Main "HOL-Library.Multiset" "HOL-Library.List_Lexorder" "HOL-Library.Char_ord"
begin

section \<open>The transistor image tutorial: splitting the corpus\<close>

text \<open>
  The notebook \<^verbatim>\<open>hardware_image/transistor_image_tutorial.ipynb\<close> divides the parsed
  documents into a train, a dev and a test set (cell 15):
  \<^verbatim>\<open>
  docs = session.query(Document).order_by(Document.name).all()
  ld   = len(docs)

  train_docs = set()
  dev_docs   = set()
  test_docs  = set()
  splits = (0.5, 0.75)
  data = [(doc.name, doc) for doc in docs]
  data.sort(key=lambda x: x[0])
  for i, (doc_name, doc) in enumerate(data):
      if i < splits[0] * ld:
          train_docs.add(doc)
      elif i < splits[1] * ld:
          dev_docs.add(doc)
      else:
          test_docs.add(doc)
  \<close>
  A \<^verbatim>\<open>Document\<close> is a row of the database: the model keeps its primary key, which
  tells two rows apart as Python tells two objects apart, and its name, the only
  attribute the cell reads. Names are compared as Python compares \<^verbatim>\<open>str\<close>:
  lexicographically, character by character, by code point (the names of the model are
  strings of 8-bit characters).
\<close>

record document =
  doc_id :: nat
  name :: string

record split_sets =
  train_docs :: "document set"
  dev_docs :: "document set"
  test_docs :: "document set"

text \<open>
  The thresholds are Python floats. Both are dyadic, so the products \<^verbatim>\<open>0.5 * ld\<close> and
  \<^verbatim>\<open>0.75 * ld\<close> are exact in double precision for every list that fits in memory, and
  Python compares an \<^verbatim>\<open>int\<close> with a \<^verbatim>\<open>float\<close> exactly: the model computes in the reals.
\<close>

definition splits :: "real \<times> real" where
  "splits = (0.5, 0.75)"

text \<open>The body of the \<^verbatim>\<open>for\<close> loop, one element of \<^verbatim>\<open>enumerate(data)\<close> at a time.\<close>

fun assign_loop ::
  "real \<times> real \<Rightarrow> nat \<Rightarrow> (nat \<times> string \<times> document) list \<Rightarrow> split_sets \<Rightarrow> split_sets" where
  "assign_loop sp ld [] st = st"
| "assign_loop sp ld ((i, (doc_name, doc)) # rest) st =
     (if real i < fst sp * real ld then
        assign_loop sp ld rest (st\<lparr>train_docs := insert doc (train_docs st)\<rparr>)
      else if real i < snd sp * real ld then
        assign_loop sp ld rest (st\<lparr>dev_docs := insert doc (dev_docs st)\<rparr>)
      else
        assign_loop sp ld rest (st\<lparr>test_docs := insert doc (test_docs st)\<rparr>))"

text \<open>\<^verbatim>\<open>data\<close> after \<^verbatim>\<open>data.sort(key=lambda x: x[0])\<close>; Python's sort is stable, as is \<^const>\<open>sort_key\<close>.\<close>

definition sorted_data :: "document list \<Rightarrow> (string \<times> document) list" where
  "sorted_data docs = sort_key fst (map (\<lambda>doc. (name doc, doc)) docs)"

definition split_documents :: "document list \<Rightarrow> split_sets" where
  "split_documents docs =
     (let ld = length docs in
      assign_loop splits ld (enumerate 0 (sorted_data docs))
        \<lparr>train_docs = {}, dev_docs = {}, test_docs = {}\<rparr>)"

text \<open>The documents in sorted order: the second components of \<^verbatim>\<open>data\<close> after the sort.\<close>

definition sorted_docs :: "document list \<Rightarrow> document list" where
  "sorted_docs docs = map snd (sorted_data docs)"

text \<open>
  The number of indices below each threshold: \<open>i < 0.5 * n\<close> holds for the first
  \<open>train_bound n\<close> indices and \<open>i < 0.75 * n\<close> for the first \<open>dev_bound n\<close>.
\<close>

definition train_bound :: "nat \<Rightarrow> nat" where "train_bound n = (n + 1) div 2"

definition dev_bound :: "nat \<Rightarrow> nat" where "dev_bound n = (3 * n + 3) div 4"

text \<open>Four documents named a to d, as the query might return them in another order.\<close>

definition doc_a :: document where "doc_a = \<lparr>doc_id = 1, name = ''a''\<rparr>"

definition doc_b :: document where "doc_b = \<lparr>doc_id = 2, name = ''b''\<rparr>"

definition doc_c :: document where "doc_c = \<lparr>doc_id = 3, name = ''c''\<rparr>"

definition doc_d :: document where "doc_d = \<lparr>doc_id = 4, name = ''d''\<rparr>"

definition abcd_shuffled :: "document list" where
  "abcd_shuffled = [doc_d, doc_b, doc_a, doc_c]"

section \<open>Candidate extraction\<close>

text \<open>
  The notebook configures and runs the extractor of the \<^verbatim>\<open>fonduer\<close> package (cells 18 to 26):
  \<^verbatim>\<open>
  def do_nothing_matcher(fig):
      return True

  fig_matcher = LambdaFunctionFigureMatcher(func=do_nothing_matcher)
  figs = OmniFigures(type='png')
  candidate_extractor = CandidateExtractor(Part_Fig, [figs], [fig_matcher])
  candidate_extractor.apply(train_docs, split=0, parallelism=PARALLEL)
  \<close>
  Only \<^verbatim>\<open>do_nothing_matcher\<close> and the calls are code of the notebook. The classes
  \<^verbatim>\<open>CandidateExtractor\<close>, \<^verbatim>\<open>LambdaFunctionFigureMatcher\<close> and \<^verbatim>\<open>OmniFigures\<close> are imported; what
  the extractor does is taken from the specification of the pipeline, and what a candidate
  space enumerates is left open: it is a parameter of every definition below.
\<close>

text \<open>
  Modelled from the spec: the \<^verbatim>\<open>Figure\<close> entity, whose class is not in the notebook. A figure
  belongs to one document and carries a position index, a storage URL and a format tag.
\<close>

record figure =
  fig_doc :: string
  fig_position :: nat
  fig_url :: string
  fig_format :: string

text \<open>
  Modelled from the spec: the \<^verbatim>\<open>Candidate\<close> row of the store, whose class
  (\<^verbatim>\<open>candidate_subclass\<close>) is not in the notebook. A candidate is a tuple of mentions, derived
  from one document and tagged with one split (train = 0, dev = 1, test = 2).
\<close>

record 'm candidate =
  cand_doc :: document
  cand_split :: nat
  cand_args :: "'m list"

text \<open>
  Modelled from the spec: the configuration of \<^verbatim>\<open>CandidateExtractor\<close>, whose class is not in
  the notebook: one candidate space and one matcher per argument position, and an optional
  throttler. A candidate space yields a finite sequence of mentions of one document; a
  matcher is a predicate on a mention; a throttler is a predicate on a matched tuple.
\<close>

record 'm extractor =
  spaces :: "(document \<Rightarrow> 'm list) list"
  matchers :: "('m \<Rightarrow> bool) list"
  throttler :: "('m list \<Rightarrow> bool) option"

text \<open>
  Modelled from the spec: the enumerating state of \<^verbatim>\<open>CandidateExtractor.apply\<close> (not in the
  notebook): the cartesian product of the per-argument candidate spaces of the document.
\<close>

definition enumerate_tuples :: "'m extractor \<Rightarrow> document \<Rightarrow> 'm list list" where
  "enumerate_tuples E doc = product_lists (map (\<lambda>space. space doc) (spaces E))"

text \<open>
  Modelled from the spec: the filtering state of \<^verbatim>\<open>CandidateExtractor.apply\<close> (not in the
  notebook): a tuple fails as soon as the matcher of one argument position rejects its
  mention; a tuple that survives the matchers is then put to the throttler, if there is one.
\<close>

definition matches :: "'m extractor \<Rightarrow> 'm list \<Rightarrow> bool" where
  "matches E t = list_all2 (\<lambda>matcher x. matcher x) (matchers E) t"

definition passes_throttler :: "'m extractor \<Rightarrow> 'm list \<Rightarrow> bool" where
  "passes_throttler E t = (case throttler E of None \<Rightarrow> True | Some th \<Rightarrow> th t)"

definition surviving :: "'m extractor \<Rightarrow> document \<Rightarrow> 'm list list" where
  "surviving E doc = filter (passes_throttler E) (filter (matches E) (enumerate_tuples E doc))"

text \<open>
  Modelled from the spec: the persisting state of \<^verbatim>\<open>CandidateExtractor.apply\<close> (not in the
  notebook). The store is the table of candidate rows; of the two semantics the spec allows
  for a re-run (upsert, or clear then insert) the model takes the upsert: a row that is
  already stored is not stored again.
\<close>

fun persist :: "'m candidate list \<Rightarrow> 'm candidate list \<Rightarrow> 'm candidate list" where
  "persist store [] = store"
| "persist store (c # cs) = persist (if c \<in> set store then store else store @ [c]) cs"

text \<open>
  Modelled from the spec: \<^verbatim>\<open>CandidateExtractor.apply\<close> for one document and for a batch of
  documents (not in the notebook): the surviving tuples are stored, tagged with the document
  and the requested split label, one document after the other. The worker pool
  (\<^verbatim>\<open>parallelism\<close>) is not modelled.
\<close>

definition extract_document ::
  "'m extractor \<Rightarrow> 'm candidate list \<Rightarrow> document \<Rightarrow> nat \<Rightarrow> 'm candidate list" where
  "extract_document E store doc split =
     persist store (map (\<lambda>t. \<lparr>cand_doc = doc, cand_split = split, cand_args = t\<rparr>) (surviving E doc))"

fun apply_extractor ::
  "'m extractor \<Rightarrow> 'm candidate list \<Rightarrow> document list \<Rightarrow> nat \<Rightarrow> 'm candidate list" where
  "apply_extractor E store [] split = store"
| "apply_extractor E store (doc # docs) split =
     apply_extractor E (extract_document E store doc split) docs split"

text \<open>The matcher function of cell 18, as the notebook defines it.\<close>

definition do_nothing_matcher :: "'m \<Rightarrow> bool" where
  "do_nothing_matcher fig = True"

text \<open>
  Modelled from the spec: \<^verbatim>\<open>LambdaFunctionFigureMatcher(func=do_nothing_matcher)\<close>, whose class
  is not in the notebook. A matcher is a predicate on a mention: the wrapped matcher accepts
  a figure exactly when \<^verbatim>\<open>func\<close> returns \<^verbatim>\<open>True\<close> on it.
\<close>

definition fig_matcher :: "'m \<Rightarrow> bool" where
  "fig_matcher = do_nothing_matcher"

text \<open>
  The extractor of cell 22: one argument position, the matcher above, no throttler. The
  candidate space \<^verbatim>\<open>figs\<close> is the parameter.
\<close>

definition candidate_extractor :: "(document \<Rightarrow> 'm list) \<Rightarrow> 'm extractor" where
  "candidate_extractor figs = \<lparr>spaces = [figs], matchers = [fig_matcher], throttler = None\<rparr>"

text \<open>
  Three figures of the document named a, and an extractor whose matcher accepts the png
  figures only and whose throttler rejects the tuple of the figure at position 2.
\<close>

definition fig_1 :: figure where
  "fig_1 = \<lparr>fig_doc = ''a'', fig_position = 0, fig_url = ''a/Image_001.png'', fig_format = ''png''\<rparr>"

definition fig_2 :: figure where
  "fig_2 = \<lparr>fig_doc = ''a'', fig_position = 1, fig_url = ''a/Image_002.jpg'', fig_format = ''jpg''\<rparr>"

definition fig_3 :: figure where
  "fig_3 = \<lparr>fig_doc = ''a'', fig_position = 2, fig_url = ''a/Image_003.png'', fig_format = ''png''\<rparr>"

definition figs_of_a :: "document \<Rightarrow> figure list" where
  "figs_of_a doc = (if doc = doc_a then [fig_1, fig_2, fig_3] else [])"

definition png_extractor :: "figure extractor" where
  "png_extractor = \<lparr>spaces = [figs_of_a], matchers = [\<lambda>f. fig_format f = ''png''],
     throttler = Some (\<lambda>t. map fig_position t \<noteq> [2])\<rparr>"

section \<open>Properties of the split\<close>

lemma assign_loop_train:
  "train_docs (assign_loop sp ld ys st) =
     train_docs st \<union> {snd (snd p) |p. p \<in> set ys \<and> real (fst p) < fst sp * real ld}"
  by (induction sp ld ys st rule: assign_loop.induct) auto

lemma assign_loop_dev:
  "dev_docs (assign_loop sp ld ys st) =
     dev_docs st \<union> {snd (snd p) |p. p \<in> set ys \<and> \<not> real (fst p) < fst sp * real ld
                                    \<and> real (fst p) < snd sp * real ld}"
  by (induction sp ld ys st rule: assign_loop.induct) auto

lemma assign_loop_test:
  "test_docs (assign_loop sp ld ys st) =
     test_docs st \<union> {snd (snd p) |p. p \<in> set ys \<and> \<not> real (fst p) < fst sp * real ld
                                    \<and> \<not> real (fst p) < snd sp * real ld}"
  by (induction sp ld ys st rule: assign_loop.induct) auto

lemma insort_key_pair:
  "insort_key fst (f x, x) (map (\<lambda>d. (f d, d)) xs) = map (\<lambda>d. (f d, d)) (insort_key f x xs)"
  by (induction xs) auto

lemma sort_key_pair:
  "sort_key fst (map (\<lambda>d. (f d, d)) xs) = map (\<lambda>d. (f d, d)) (sort_key f xs)"
  by (induction xs) (auto simp: insort_key_pair)

lemma sorted_data_sort_key: "sorted_data docs = map (\<lambda>d. (name d, d)) (sort_key name docs)"
  by (simp add: sorted_data_def sort_key_pair)

lemma sorted_docs_sort_key: "sorted_docs docs = sort_key name docs"
  by (simp add: sorted_docs_def sorted_data_sort_key comp_def)

lemma half_threshold: "real i < 0.5 * real n \<longleftrightarrow> i < (n + 1) div 2"
proof -
  have "real i < 0.5 * real n \<longleftrightarrow> real (2 * i) < real n" by auto
  also have "\<dots> \<longleftrightarrow> 2 * i < n" by (simp only: of_nat_less_iff)
  also have "\<dots> \<longleftrightarrow> i < (n + 1) div 2" by arith
  finally show ?thesis .
qed

lemma three_quarter_threshold: "real i < 0.75 * real n \<longleftrightarrow> i < (3 * n + 3) div 4"
proof -
  have "real i < 0.75 * real n \<longleftrightarrow> real (4 * i) < real (3 * n)" by auto
  also have "\<dots> \<longleftrightarrow> 4 * i < 3 * n" by (simp only: of_nat_less_iff)
  also have "\<dots> \<longleftrightarrow> i < (3 * n + 3) div 4" by arith
  finally show ?thesis .
qed

lemma enum_sorted_data:
  "p \<in> set (enumerate 0 (sorted_data docs)) \<longleftrightarrow>
     fst p < length docs \<and> snd p = (name (sorted_docs docs ! fst p), sorted_docs docs ! fst p)"
  by (auto simp: in_set_enumerate_eq sorted_data_sort_key sorted_docs_sort_key)

lemma train_docs_index:
  "train_docs (split_documents docs) =
     {sorted_docs docs ! i |i. i < length docs \<and> real i < 0.5 * real (length docs)}"
  unfolding split_documents_def Let_def assign_loop_train
  by (auto simp: enum_sorted_data splits_def) 

lemma dev_docs_index:
  "dev_docs (split_documents docs) =
     {sorted_docs docs ! i |i. i < length docs \<and> \<not> real i < 0.5 * real (length docs)
         \<and> real i < 0.75 * real (length docs)}"
  unfolding split_documents_def Let_def assign_loop_dev
  by (auto simp: enum_sorted_data splits_def)

lemma test_docs_index:
  "test_docs (split_documents docs) =
     {sorted_docs docs ! i |i. i < length docs \<and> \<not> real i < 0.5 * real (length docs)
         \<and> \<not> real i < 0.75 * real (length docs)}"
  unfolding split_documents_def Let_def assign_loop_test
  by (auto simp: enum_sorted_data splits_def)

lemma bounds_le: "train_bound n \<le> dev_bound n" "dev_bound n \<le> n"
  by (simp_all add: train_bound_def dev_bound_def)

lemma train_docs_image:
  "train_docs (split_documents docs) = nth (sorted_docs docs) ` {0..<train_bound (length docs)}"
  using bounds_le [of "length docs"]
  unfolding train_docs_index half_threshold train_bound_def [symmetric]
  by (auto simp: image_def)

lemma dev_docs_image:
  "dev_docs (split_documents docs) =
     nth (sorted_docs docs) ` {train_bound (length docs)..<dev_bound (length docs)}"
  using bounds_le [of "length docs"]
  unfolding dev_docs_index half_threshold three_quarter_threshold
    train_bound_def [symmetric] dev_bound_def [symmetric]
  by (auto simp: image_def)

lemma test_docs_image:
  "test_docs (split_documents docs) =
     nth (sorted_docs docs) ` {dev_bound (length docs)..<length docs}"
  using bounds_le [of "length docs"]
  unfolding test_docs_index half_threshold three_quarter_threshold
    train_bound_def [symmetric] dev_bound_def [symmetric]
  by (auto simp: image_def)

lemma length_sorted_docs: "length (sorted_docs docs) = length docs"
  by (simp add: sorted_docs_sort_key)

lemma inj_on_sorted_docs:
  assumes "distinct docs" "I \<subseteq> {0..<length docs}"
  shows "inj_on (nth (sorted_docs docs)) I"
proof (rule inj_on_nth)
  show "distinct (sorted_docs docs)" using assms(1) by (simp add: sorted_docs_sort_key)
  show "\<forall>i\<in>I. i < length (sorted_docs docs)" using assms(2) by (auto simp: length_sorted_docs)
qed

lemma card_train_docs:
  "distinct docs \<Longrightarrow> card (train_docs (split_documents docs)) = train_bound (length docs)"
  using bounds_le [of "length docs"]
  by (simp add: train_docs_image card_image inj_on_sorted_docs)

lemma card_dev_docs:
  "distinct docs \<Longrightarrow>
     card (dev_docs (split_documents docs)) = dev_bound (length docs) - train_bound (length docs)"
  using bounds_le [of "length docs"]
  by (simp add: dev_docs_image card_image inj_on_sorted_docs)

lemma card_test_docs:
  "distinct docs \<Longrightarrow>
     card (test_docs (split_documents docs)) = length docs - dev_bound (length docs)"
  using bounds_le [of "length docs"]
  by (simp add: test_docs_image card_image inj_on_sorted_docs)

lemma sorted_docs_sorted: "sorted (map name (sorted_docs docs))"
  by (simp add: sorted_docs_sort_key)

lemma mset_sorted_docs: "mset (sorted_docs docs) = mset docs"
  by (simp add: sorted_docs_sort_key)

lemma ceiling_half: "\<lceil>real n / 2\<rceil> = int (train_bound n)"
proof -
  have "\<lceil>real n / 2\<rceil> = \<lceil>real_of_int (int n) / real_of_int 2\<rceil>" by simp
  also have "\<dots> = - (- int n div 2)" by (rule ceiling_divide_eq_div)
  also have "\<dots> = int (train_bound n)" unfolding train_bound_def by (simp add: zdiv_int) 
  finally show ?thesis .
qed

lemma ceiling_three_quarters: "\<lceil>3 * real n / 4\<rceil> = int (dev_bound n)"
proof -
  have "\<lceil>3 * real n / 4\<rceil> = \<lceil>real_of_int (3 * int n) / real_of_int 4\<rceil>" by simp
  also have "\<dots> = - (- (3 * int n) div 4)" by (rule ceiling_divide_eq_div)
  also have "\<dots> = int (dev_bound n)" unfolding dev_bound_def by (simp add: zdiv_int)
  finally show ?thesis .
qed

lemma nth_mem_index_set:
  "distinct xs \<Longrightarrow> i < length xs \<Longrightarrow>
     xs ! i \<in> {xs ! j |j. j < length xs \<and> P j} \<longleftrightarrow> P i"
  by (auto simp: nth_eq_iff_index_eq)

lemma distinct_sorted_docs: "distinct docs \<Longrightarrow> distinct (sorted_docs docs)"
  by (simp add: sorted_docs_sort_key)

lemma train_membership:
  assumes "distinct docs" "i < length docs"
  shows "sorted_docs docs ! i \<in> train_docs (split_documents docs)
           \<longleftrightarrow> real i < 0.5 * real (length docs)"
  using nth_mem_index_set [OF distinct_sorted_docs [OF assms(1)], of i
      "\<lambda>j. real j < 0.5 * real (length docs)"] assms(2)
  by (simp add: train_docs_index length_sorted_docs)

lemma dev_membership:
  assumes "distinct docs" "i < length docs"
  shows "sorted_docs docs ! i \<in> dev_docs (split_documents docs)
           \<longleftrightarrow> \<not> real i < 0.5 * real (length docs) \<and> real i < 0.75 * real (length docs)"
  using nth_mem_index_set [OF distinct_sorted_docs [OF assms(1)], of i
      "\<lambda>j. \<not> real j < 0.5 * real (length docs) \<and> real j < 0.75 * real (length docs)"] assms(2)
  by (simp add: dev_docs_index length_sorted_docs)

lemma test_membership:
  assumes "distinct docs" "i < length docs"
  shows "sorted_docs docs ! i \<in> test_docs (split_documents docs)
           \<longleftrightarrow> \<not> real i < 0.5 * real (length docs) \<and> \<not> real i < 0.75 * real (length docs)"
  using nth_mem_index_set [OF distinct_sorted_docs [OF assms(1)], of i
      "\<lambda>j. \<not> real j < 0.5 * real (length docs) \<and> \<not> real j < 0.75 * real (length docs)"] assms(2)
  by (simp add: test_docs_index length_sorted_docs)

text \<open>
  Claim C1. The cell sorts the documents by name, ascending (the sorted sequence is a
  rearrangement of the input whose names are in order), and with \<open>L\<close> the number of documents and
  the thresholds \<open>(0.5, 0.75)\<close> the document at 0-based sorted index \<open>i\<close> is put in the train set
  if \<open>i < 0.5 * L\<close>, in the dev set if \<open>0.5 * L \<le> i < 0.75 * L\<close>, and in the test set otherwise.
  Nothing else is put in a set: the train set is exactly the documents at the indices below
  \<open>0.5 * L\<close>, the dev set exactly those at the indices from \<open>0.5 * L\<close> and below \<open>0.75 * L\<close>, the
  test set exactly those at the remaining indices; for distinct documents the document at
  index \<open>i\<close> is therefore in one set only, the one its index selects.
\<close>

theorem split_by_sorted_index:
  "sorted (map name (sorted_docs docs)) \<and> mset (sorted_docs docs) = mset docs \<and>
   train_docs (split_documents docs) =
     {sorted_docs docs ! i |i. i < length docs \<and> real i < 0.5 * real (length docs)} \<and>
   dev_docs (split_documents docs) =
     {sorted_docs docs ! i |i. i < length docs \<and> 0.5 * real (length docs) \<le> real i
         \<and> real i < 0.75 * real (length docs)} \<and>
   test_docs (split_documents docs) =
     {sorted_docs docs ! i |i. i < length docs \<and> \<not> real i < 0.5 * real (length docs)
         \<and> \<not> real i < 0.75 * real (length docs)} \<and>
   (\<forall>i<length docs.
      (real i < 0.5 * real (length docs) \<longrightarrow>
         sorted_docs docs ! i \<in> train_docs (split_documents docs)) \<and>
      (0.5 * real (length docs) \<le> real i \<and> real i < 0.75 * real (length docs) \<longrightarrow>
         sorted_docs docs ! i \<in> dev_docs (split_documents docs)) \<and>
      (\<not> real i < 0.5 * real (length docs) \<and> \<not> real i < 0.75 * real (length docs) \<longrightarrow>
         sorted_docs docs ! i \<in> test_docs (split_documents docs))) \<and>
   (distinct docs \<longrightarrow>
      (\<forall>i<length docs.
         (sorted_docs docs ! i \<in> train_docs (split_documents docs)
            \<longleftrightarrow> real i < 0.5 * real (length docs)) \<and>
         (sorted_docs docs ! i \<in> dev_docs (split_documents docs)
            \<longleftrightarrow> 0.5 * real (length docs) \<le> real i \<and> real i < 0.75 * real (length docs)) \<and>
         (sorted_docs docs ! i \<in> test_docs (split_documents docs)
            \<longleftrightarrow> \<not> real i < 0.5 * real (length docs) \<and> \<not> real i < 0.75 * real (length docs))))"
proof -
  have le: "0.5 * real (length docs) \<le> real i \<longleftrightarrow> \<not> real i < 0.5 * real (length docs)" for i
    by linarith
  have s: "sorted (map name (sorted_docs docs))" by (rule sorted_docs_sorted)
  have m: "mset (sorted_docs docs) = mset docs" by (rule mset_sorted_docs)
  have tr: "train_docs (split_documents docs) =
     {sorted_docs docs ! i |i. i < length docs \<and> real i < 0.5 * real (length docs)}"
    by (rule train_docs_index)
  have dv: "dev_docs (split_documents docs) =
     {sorted_docs docs ! i |i. i < length docs \<and> 0.5 * real (length docs) \<le> real i
         \<and> real i < 0.75 * real (length docs)}"
    unfolding le by (rule dev_docs_index)
  have te: "test_docs (split_documents docs) =
     {sorted_docs docs ! i |i. i < length docs \<and> \<not> real i < 0.5 * real (length docs)
         \<and> \<not> real i < 0.75 * real (length docs)}"
    by (rule test_docs_index)
  have mem: "\<forall>i<length docs.
      (real i < 0.5 * real (length docs) \<longrightarrow>
         sorted_docs docs ! i \<in> train_docs (split_documents docs)) \<and>
      (0.5 * real (length docs) \<le> real i \<and> real i < 0.75 * real (length docs) \<longrightarrow>
         sorted_docs docs ! i \<in> dev_docs (split_documents docs)) \<and>
      (\<not> real i < 0.5 * real (length docs) \<and> \<not> real i < 0.75 * real (length docs) \<longrightarrow>
         sorted_docs docs ! i \<in> test_docs (split_documents docs))"
  proof (intro allI impI conjI)
    fix i assume "i < length docs" "real i < 0.5 * real (length docs)"
    then show "sorted_docs docs ! i \<in> train_docs (split_documents docs)"
      unfolding train_docs_index by blast
  next
    fix i assume "i < length docs"
      "0.5 * real (length docs) \<le> real i \<and> real i < 0.75 * real (length docs)"
    then have "i < length docs \<and> \<not> real i < 0.5 * real (length docs)
        \<and> real i < 0.75 * real (length docs)" by linarith
    then show "sorted_docs docs ! i \<in> dev_docs (split_documents docs)"
      unfolding dev_docs_index by blast
  next
    fix i assume "i < length docs"
      "\<not> real i < 0.5 * real (length docs) \<and> \<not> real i < 0.75 * real (length docs)"
    then show "sorted_docs docs ! i \<in> test_docs (split_documents docs)"
      unfolding test_docs_index by blast
  qed
  have only: "\<forall>i<length docs.
         (sorted_docs docs ! i \<in> train_docs (split_documents docs)
            \<longleftrightarrow> real i < 0.5 * real (length docs)) \<and>
         (sorted_docs docs ! i \<in> dev_docs (split_documents docs)
            \<longleftrightarrow> 0.5 * real (length docs) \<le> real i \<and> real i < 0.75 * real (length docs)) \<and>
         (sorted_docs docs ! i \<in> test_docs (split_documents docs)
            \<longleftrightarrow> \<not> real i < 0.5 * real (length docs) \<and> \<not> real i < 0.75 * real (length docs))"
    if d: "distinct docs"
  proof (intro allI impI)
    fix i assume i: "i < length docs"
    show "(sorted_docs docs ! i \<in> train_docs (split_documents docs)
            \<longleftrightarrow> real i < 0.5 * real (length docs)) \<and>
         (sorted_docs docs ! i \<in> dev_docs (split_documents docs)
            \<longleftrightarrow> 0.5 * real (length docs) \<le> real i \<and> real i < 0.75 * real (length docs)) \<and>
         (sorted_docs docs ! i \<in> test_docs (split_documents docs)
            \<longleftrightarrow> \<not> real i < 0.5 * real (length docs) \<and> \<not> real i < 0.75 * real (length docs))"
      unfolding le
      using train_membership [OF d i] dev_membership [OF d i] test_membership [OF d i]
      by blast
  qed
  from s m tr dv te mem only show ?thesis by blast
qed

lemma sorted_docs_abcd: "sorted_docs abcd_shuffled = [doc_a, doc_b, doc_c, doc_d]"
  by (simp add: sorted_docs_def sorted_data_def abcd_shuffled_def doc_a_def doc_b_def doc_c_def doc_d_def)

theorem split_by_sorted_index_witness:
  "distinct abcd_shuffled \<and> (2::nat) < length abcd_shuffled \<and> (3::nat) < length abcd_shuffled \<and>
   0.5 * real (length abcd_shuffled) \<le> real 2 \<and> real 2 < 0.75 * real (length abcd_shuffled) \<and>
   doc_c \<in> dev_docs (split_documents abcd_shuffled) \<and>
   doc_c \<notin> train_docs (split_documents abcd_shuffled) \<and>
   doc_c \<notin> test_docs (split_documents abcd_shuffled) \<and>
   doc_d \<notin> train_docs (split_documents abcd_shuffled) \<and>
   doc_d \<notin> dev_docs (split_documents abcd_shuffled) \<and>
   doc_d \<in> test_docs (split_documents abcd_shuffled)"
proof -
  have d: "distinct abcd_shuffled"
    by (simp add: abcd_shuffled_def doc_a_def doc_b_def doc_c_def doc_d_def)
  have l: "length abcd_shuffled = 4" by (simp add: abcd_shuffled_def)
  have n: "sorted_docs abcd_shuffled ! 2 = doc_c" "sorted_docs abcd_shuffled ! 3 = doc_d"
    by (simp_all add: sorted_docs_abcd)
  from split_by_sorted_index [of abcd_shuffled] d
  have "\<forall>i<length abcd_shuffled.
         (sorted_docs abcd_shuffled ! i \<in> train_docs (split_documents abcd_shuffled)
            \<longleftrightarrow> real i < 0.5 * real (length abcd_shuffled)) \<and>
         (sorted_docs abcd_shuffled ! i \<in> dev_docs (split_documents abcd_shuffled)
            \<longleftrightarrow> 0.5 * real (length abcd_shuffled) \<le> real i
                \<and> real i < 0.75 * real (length abcd_shuffled)) \<and>
         (sorted_docs abcd_shuffled ! i \<in> test_docs (split_documents abcd_shuffled)
            \<longleftrightarrow> \<not> real i < 0.5 * real (length abcd_shuffled)
                \<and> \<not> real i < 0.75 * real (length abcd_shuffled))"
    by blast
  then have "\<forall>i<4. (sorted_docs abcd_shuffled ! i \<in> train_docs (split_documents abcd_shuffled)
            \<longleftrightarrow> real i < 0.5 * 4) \<and>
         (sorted_docs abcd_shuffled ! i \<in> dev_docs (split_documents abcd_shuffled)
            \<longleftrightarrow> 0.5 * 4 \<le> real i \<and> real i < 0.75 * 4) \<and>
         (sorted_docs abcd_shuffled ! i \<in> test_docs (split_documents abcd_shuffled)
            \<longleftrightarrow> \<not> real i < 0.5 * 4 \<and> \<not> real i < 0.75 * 4)"
    by (simp only: l of_nat_numeral)
  then have c: "(sorted_docs abcd_shuffled ! 2 \<in> train_docs (split_documents abcd_shuffled)
            \<longleftrightarrow> real 2 < 0.5 * 4) \<and>
         (sorted_docs abcd_shuffled ! 2 \<in> dev_docs (split_documents abcd_shuffled)
            \<longleftrightarrow> 0.5 * 4 \<le> real 2 \<and> real 2 < 0.75 * 4) \<and>
         (sorted_docs abcd_shuffled ! 2 \<in> test_docs (split_documents abcd_shuffled)
            \<longleftrightarrow> \<not> real 2 < 0.5 * 4 \<and> \<not> real 2 < 0.75 * 4)"
    and e: "(sorted_docs abcd_shuffled ! 3 \<in> train_docs (split_documents abcd_shuffled)
            \<longleftrightarrow> real 3 < 0.5 * 4) \<and>
         (sorted_docs abcd_shuffled ! 3 \<in> dev_docs (split_documents abcd_shuffled)
            \<longleftrightarrow> 0.5 * 4 \<le> real 3 \<and> real 3 < 0.75 * 4) \<and>
         (sorted_docs abcd_shuffled ! 3 \<in> test_docs (split_documents abcd_shuffled)
            \<longleftrightarrow> \<not> real 3 < 0.5 * 4 \<and> \<not> real 3 < 0.75 * 4)"
    by simp_all
  from c e d show ?thesis by (simp add: n l)
qed

lemma split_union: "train_docs (split_documents docs) \<union> dev_docs (split_documents docs)
    \<union> test_docs (split_documents docs) = set docs"
proof -
  have "set docs = set (sorted_docs docs)" by (simp add: sorted_docs_sort_key)
  also have "\<dots> = nth (sorted_docs docs) ` {0..<length docs}"
    using nth_image [of "length (sorted_docs docs)" "sorted_docs docs"]
    by (simp add: length_sorted_docs)
  also have "{0..<length docs} = {0..<train_bound (length docs)}
      \<union> {train_bound (length docs)..<dev_bound (length docs)}
      \<union> {dev_bound (length docs)..<length docs}"
    using bounds_le [of "length docs"] by auto
  finally show ?thesis
    by (simp add: train_docs_image dev_docs_image test_docs_image image_Un)
qed

lemma split_disjoint:
  assumes "distinct docs"
  shows "train_docs (split_documents docs) \<inter> dev_docs (split_documents docs) = {}"
    and "train_docs (split_documents docs) \<inter> test_docs (split_documents docs) = {}"
    and "dev_docs (split_documents docs) \<inter> test_docs (split_documents docs) = {}"
proof -
  have inj: "inj_on (nth (sorted_docs docs)) {0..<length docs}"
    using assms by (simp add: inj_on_sorted_docs)
  have sub: "{0..<train_bound (length docs)} \<subseteq> {0..<length docs}"
    "{train_bound (length docs)..<dev_bound (length docs)} \<subseteq> {0..<length docs}"
    "{dev_bound (length docs)..<length docs} \<subseteq> {0..<length docs}"
    using bounds_le [of "length docs"] by auto
  show "train_docs (split_documents docs) \<inter> dev_docs (split_documents docs) = {}"
    unfolding train_docs_image dev_docs_image
    using inj_on_image_Int [OF inj sub(1) sub(2)] by simp
  show "train_docs (split_documents docs) \<inter> test_docs (split_documents docs) = {}"
    unfolding train_docs_image test_docs_image
    using inj_on_image_Int [OF inj sub(1) sub(3)] bounds_le [of "length docs"] by simp
  show "dev_docs (split_documents docs) \<inter> test_docs (split_documents docs) = {}"
    unfolding dev_docs_image test_docs_image
    using inj_on_image_Int [OF inj sub(2) sub(3)] by simp
qed

lemma train_bound_approx: "0.5 * real n \<le> real (train_bound n)" "real (train_bound n) < 0.5 * real n + 1"
proof -
  have "2 * train_bound n \<ge> n" "2 * train_bound n < n + 2" unfolding train_bound_def by arith+
  then have "real (2 * train_bound n) \<ge> real n" "real (2 * train_bound n) < real (n + 2)"
    by (simp_all only: of_nat_le_iff of_nat_less_iff)
  then show "0.5 * real n \<le> real (train_bound n)" "real (train_bound n) < 0.5 * real n + 1"
    by simp_all
qed

lemma dev_size_approx:
  "\<bar>real (dev_bound n - train_bound n) - (0.75 - 0.5) * real n\<bar> < 1"
proof -
  have "4 * (dev_bound n - train_bound n) < n + 4" "n < 4 * (dev_bound n - train_bound n) + 4"
    unfolding dev_bound_def train_bound_def by arith+
  then have "real (4 * (dev_bound n - train_bound n)) < real (n + 4)"
    "real n < real (4 * (dev_bound n - train_bound n) + 4)"
    by (simp_all only: of_nat_less_iff)
  then show ?thesis by simp
qed

text \<open>
  Claim C2. For a list of distinct documents the three sets form a partition of the documents:
  their union is the whole set, they are pairwise disjoint, and the sizes of the train and the
  dev set differ from \<open>f1 * L\<close> and \<open>(f2 - f1) * L\<close> by less than one document.
\<close>

theorem split_is_partition:
  assumes "distinct docs"
  shows "train_docs (split_documents docs) \<union> dev_docs (split_documents docs)
           \<union> test_docs (split_documents docs) = set docs \<and>
         train_docs (split_documents docs) \<inter> dev_docs (split_documents docs) = {} \<and>
         train_docs (split_documents docs) \<inter> test_docs (split_documents docs) = {} \<and>
         dev_docs (split_documents docs) \<inter> test_docs (split_documents docs) = {} \<and>
         \<bar>real (card (train_docs (split_documents docs))) - fst splits * real (length docs)\<bar> < 1 \<and>
         \<bar>real (card (dev_docs (split_documents docs)))
             - (snd splits - fst splits) * real (length docs)\<bar> < 1"
proof -
  have "\<bar>real (card (train_docs (split_documents docs))) - fst splits * real (length docs)\<bar> < 1"
    using train_bound_approx [of "length docs"] assms
    by (simp add: card_train_docs splits_def abs_less_iff)
  moreover have "\<bar>real (card (dev_docs (split_documents docs)))
             - (snd splits - fst splits) * real (length docs)\<bar> < 1"
    using dev_size_approx [of "length docs"] assms
    by (simp add: card_dev_docs splits_def)
  ultimately show ?thesis
    using split_union [of docs] split_disjoint [OF assms] by blast
qed

theorem split_is_partition_witness:
  "distinct abcd_shuffled \<and>
   train_docs (split_documents abcd_shuffled) \<union> dev_docs (split_documents abcd_shuffled)
      \<union> test_docs (split_documents abcd_shuffled) = set abcd_shuffled \<and>
   train_docs (split_documents abcd_shuffled) \<inter> dev_docs (split_documents abcd_shuffled) = {}"
proof -
  have d: "distinct abcd_shuffled"
    by (simp add: abcd_shuffled_def doc_a_def doc_b_def doc_c_def doc_d_def)
  from split_is_partition [OF d] d show ?thesis by blast
qed

lemma names_sorted_docs:
  assumes "mset (map name docs) = mset ns" "sorted ns"
  shows "map name (sorted_docs docs) = ns"
proof -
  have "mset (map name (sorted_docs docs)) = mset ns"
    using assms(1) by (simp add: mset_sorted_docs)
  then have "sort ns = map name (sorted_docs docs)"
    using sorted_docs_sorted [of docs] by (intro properties_for_sort) simp_all
  moreover have "sort ns = ns" using assms(2) by (rule sort_key_id_if_sorted [of "\<lambda>x. x", simplified])
  ultimately show ?thesis by simp
qed

text \<open>
  Claim C3. For four documents named a, b, c and d, in whatever order the query returns them,
  the train set holds the documents named a and b, the dev set the one named c and the test
  set the one named d.
\<close>

theorem split_abcd:
  assumes "mset (map name docs) = {#''a'', ''b'', ''c'', ''d''#}"
  shows "name ` train_docs (split_documents docs) = {''a'', ''b''} \<and>
         name ` dev_docs (split_documents docs) = {''c''} \<and>
         name ` test_docs (split_documents docs) = {''d''}"
proof -
  have "length docs = size (mset (map name docs))" by simp
  also have "\<dots> = 4" unfolding assms by simp
  finally have len: "length docs = 4" .
  have "mset (map name docs) = mset [''a'', ''b'', ''c'', ''d'']" using assms by simp
  moreover have "sorted [''a'', ''b'', ''c'', ''d'']" by simp
  ultimately have ns: "map name (sorted_docs docs) = [''a'', ''b'', ''c'', ''d'']"
    by (rule names_sorted_docs)
  have nth: "name (sorted_docs docs ! i) = [''a'', ''b'', ''c'', ''d''] ! i" if "i < 4" for i
    using that nth_map [of i "sorted_docs docs" name] by (simp add: ns length_sorted_docs len)
  have b: "train_bound 4 = 2" "dev_bound 4 = 3" by (simp_all add: train_bound_def dev_bound_def)
  have s: "{0..<2::nat} = {0, 1}" "{2..<3::nat} = {2}" "{3..<4::nat} = {3}" by auto
  show ?thesis
    by (simp add: train_docs_image dev_docs_image test_docs_image len b s nth)
qed

theorem split_abcd_witness:
  "mset (map name abcd_shuffled) = {#''a'', ''b'', ''c'', ''d''#} \<and>
   name ` train_docs (split_documents abcd_shuffled) = {''a'', ''b''} \<and>
   name ` dev_docs (split_documents abcd_shuffled) = {''c''} \<and>
   name ` test_docs (split_documents abcd_shuffled) = {''d''}"
proof -
  have m: "mset (map name abcd_shuffled) = {#''a'', ''b'', ''c'', ''d''#}"
    by (simp add: abcd_shuffled_def doc_a_def doc_b_def doc_c_def doc_d_def)
  from split_abcd [OF m] m show ?thesis by blast
qed

lemma split_documents_sorted_docs:
  "split_documents docs =
     assign_loop splits (length (sorted_docs docs))
       (enumerate 0 (map (\<lambda>doc. (name doc, doc)) (sorted_docs docs)))
       \<lparr>train_docs = {}, dev_docs = {}, test_docs = {}\<rparr>"
  by (simp add: split_documents_def sorted_data_sort_key sorted_docs_sort_key)

text \<open>
  Claim C4. The three sets are a function of the sorted document sequence and the thresholds
  alone: the result is the loop run over the sorted sequence, and two inputs with the same
  sorted sequence get the same three sets.
\<close>

theorem split_deterministic:
  "split_documents docs =
     assign_loop splits (length (sorted_docs docs))
       (enumerate 0 (map (\<lambda>doc. (name doc, doc)) (sorted_docs docs)))
       \<lparr>train_docs = {}, dev_docs = {}, test_docs = {}\<rparr> \<and>
   (sorted_docs docs = sorted_docs docs' \<longrightarrow> split_documents docs = split_documents docs')"
  by (simp add: split_documents_sorted_docs)

theorem split_deterministic_witness:
  "sorted_docs abcd_shuffled = sorted_docs [doc_a, doc_b, doc_c, doc_d] \<and>
   split_documents abcd_shuffled = split_documents [doc_a, doc_b, doc_c, doc_d]"
proof -
  have e: "sorted_docs abcd_shuffled = sorted_docs [doc_a, doc_b, doc_c, doc_d]"
    by (simp add: sorted_docs_def sorted_data_def abcd_shuffled_def
        doc_a_def doc_b_def doc_c_def doc_d_def)
  from split_deterministic [of abcd_shuffled "[doc_a, doc_b, doc_c, doc_d]"] e
  show ?thesis by blast
qed

lemma filter_key_distinct:
  "distinct (map f xs) \<Longrightarrow> k \<in> set xs \<Longrightarrow> filter (\<lambda>x. f k = f x) xs = [k]"
  by (induction xs) (auto simp: filter_empty_conv image_iff)

lemma split_permutation_invariant:
  assumes "mset docs = mset docs'" "distinct (map name docs)"
  shows "split_documents docs = split_documents docs'"
proof -
  have m: "mset (map name docs') = mset (map name docs)" using assms(1) by simp
  have d': "distinct (map name docs')"
    using assms(2) mset_eq_imp_distinct_iff [OF m] by simp
  have "sort_key name docs' = sort_key name docs"
  proof (rule properties_for_sort_key)
    show "mset (sort_key name docs) = mset docs'" using assms(1) by simp
    show "sorted (map name (sort_key name docs))" by simp
    fix k assume "k \<in> set (sort_key name docs)"
    then have k: "k \<in> set docs" "k \<in> set docs'" using mset_eq_setD [OF assms(1)] by simp_all
    have "mset (map name (sort_key name docs)) = mset (map name docs)" by simp
    then have "distinct (map name (sort_key name docs))"
      using assms(2) mset_eq_imp_distinct_iff by blast
    then have "filter (\<lambda>x. name k = name x) (sort_key name docs) = [k]"
      using k(1) by (intro filter_key_distinct) simp_all
    moreover have "filter (\<lambda>x. name k = name x) docs' = [k]"
      using d' k(2) by (rule filter_key_distinct)
    ultimately show "filter (\<lambda>x. name k = name x) (sort_key name docs)
        = filter (\<lambda>x. name k = name x) docs'" by simp
  qed
  then have "sorted_docs docs = sorted_docs docs'" by (simp add: sorted_docs_sort_key)
  then show ?thesis by (simp add: split_documents_sorted_docs)
qed



text \<open>
  Claim C9. For a list of \<open>L\<close> distinct documents the sizes are \<open>\<lceil>L/2\<rceil>\<close> for train,
  \<open>\<lceil>3L/4\<rceil> - \<lceil>L/2\<rceil>\<close> for dev and \<open>L - \<lceil>3L/4\<rceil>\<close> for test; with no document all three
  sets are empty.
\<close>

theorem split_sizes:
  assumes "distinct docs"
  shows "int (card (train_docs (split_documents docs))) = \<lceil>real (length docs) / 2\<rceil> \<and>
         int (card (dev_docs (split_documents docs)))
           = \<lceil>3 * real (length docs) / 4\<rceil> - \<lceil>real (length docs) / 2\<rceil> \<and>
         int (card (test_docs (split_documents docs)))
           = int (length docs) - \<lceil>3 * real (length docs) / 4\<rceil> \<and>
         (length docs = 0 \<longrightarrow> train_docs (split_documents docs) = {} \<and>
            dev_docs (split_documents docs) = {} \<and> test_docs (split_documents docs) = {})"
proof -
  have "int (card (train_docs (split_documents docs))) = \<lceil>real (length docs) / 2\<rceil>"
    by (simp add: card_train_docs [OF assms] ceiling_half)
  moreover have "int (card (dev_docs (split_documents docs)))
      = \<lceil>3 * real (length docs) / 4\<rceil> - \<lceil>real (length docs) / 2\<rceil>"
    using bounds_le(1) [of "length docs"]
    by (simp add: card_dev_docs [OF assms] ceiling_half ceiling_three_quarters of_nat_diff)
  moreover have "int (card (test_docs (split_documents docs)))
      = int (length docs) - \<lceil>3 * real (length docs) / 4\<rceil>"
    using bounds_le(2) [of "length docs"]
    by (simp add: card_test_docs [OF assms] ceiling_three_quarters of_nat_diff)
  moreover have "length docs = 0 \<longrightarrow> train_docs (split_documents docs) = {} \<and>
      dev_docs (split_documents docs) = {} \<and> test_docs (split_documents docs) = {}"
    by (simp add: train_docs_index dev_docs_index test_docs_index)
  ultimately show ?thesis by blast
qed

theorem split_sizes_witness:
  "distinct abcd_shuffled \<and>
   int (card (train_docs (split_documents abcd_shuffled))) = 2 \<and>
   int (card (dev_docs (split_documents abcd_shuffled))) = 1 \<and>
   int (card (test_docs (split_documents abcd_shuffled))) = 1 \<and>
   length ([] :: document list) = 0 \<and> train_docs (split_documents []) = {}"
proof -
  have d: "distinct abcd_shuffled"
    by (simp add: abcd_shuffled_def doc_a_def doc_b_def doc_c_def doc_d_def)
  have l: "length abcd_shuffled = 4" by (simp add: abcd_shuffled_def)
  have c: "\<lceil>(4::real) / 2\<rceil> = 2" "\<lceil>3 * (4::real) / 4\<rceil> = 3" by simp_all
  from split_sizes [OF d] split_sizes [of "[]"] d show ?thesis by (simp add: l c)
qed

section \<open>Properties of the candidate extraction\<close>

lemma set_persist: "set (persist store cs) = set store \<union> set cs"
  by (induction store cs rule: persist.induct) auto

lemma persist_subset: "set cs \<subseteq> set store \<Longrightarrow> persist store cs = store"
  by (induction store cs rule: persist.induct) auto

lemma distinct_persist: "distinct store \<Longrightarrow> distinct (persist store cs)"
  by (induction store cs rule: persist.induct) auto

lemma set_extract_document:
  "set (extract_document E store doc split) =
     set store \<union> (\<lambda>t. \<lparr>cand_doc = doc, cand_split = split, cand_args = t\<rparr>) ` set (surviving E doc)"
  by (simp add: extract_document_def set_persist)

lemma extract_document_absorbed:
  "set (extract_document E store doc split) \<subseteq> set store' \<Longrightarrow>
     extract_document E store' doc split = store'"
  unfolding extract_document_def by (rule persist_subset) (simp add: set_persist)

lemma set_apply_extractor:
  "set (apply_extractor E store docs split) =
     set store \<union> (\<Union>doc \<in> set docs.
        (\<lambda>t. \<lparr>cand_doc = doc, cand_split = split, cand_args = t\<rparr>) ` set (surviving E doc))"
  by (induction docs arbitrary: store) (auto simp: set_extract_document)

lemma apply_extractor_absorbed:
  "set (apply_extractor E store docs split) \<subseteq> set store' \<Longrightarrow>
     apply_extractor E store' docs split = store'"
proof (induction docs arbitrary: store)
  case Nil
  show ?case by simp
next
  case (Cons doc docs)
  have "set (extract_document E store doc split) \<subseteq> set store'"
  proof -
    have "set (extract_document E store doc split)
        \<subseteq> set (apply_extractor E (extract_document E store doc split) docs split)"
      by (simp add: set_apply_extractor)
    then show ?thesis using Cons.prems by simp
  qed
  then have "extract_document E store' doc split = store'"
    by (rule extract_document_absorbed)
  moreover have "apply_extractor E store' docs split = store'"
  proof (rule Cons.IH)
    show "set (apply_extractor E (extract_document E store doc split) docs split) \<subseteq> set store'"
      using Cons.prems by simp
  qed
  ultimately show ?case by simp
qed

lemma surviving_accepted:
  "t \<in> set (surviving E doc) \<Longrightarrow> matches E t \<and> passes_throttler E t"
  by (simp add: surviving_def)

lemma product_lists_single: "product_lists [xs] = map (\<lambda>x. [x]) xs"
  by (induction xs) simp_all

lemma surviving_candidate_extractor:
  "surviving (candidate_extractor figs) doc = map (\<lambda>f. [f]) (figs doc)"
  by (simp add: surviving_def enumerate_tuples_def matches_def passes_throttler_def
      candidate_extractor_def fig_matcher_def do_nothing_matcher_def product_lists_single
      filter_map comp_def)

lemma extract_png_extractor:
  "extract_document png_extractor [] doc_a 0
      = [\<lparr>cand_doc = doc_a, cand_split = 0, cand_args = [fig_1]\<rparr>]"
  by (simp add: extract_document_def surviving_def enumerate_tuples_def matches_def
      passes_throttler_def png_extractor_def figs_of_a_def fig_1_def fig_2_def fig_3_def)

text \<open>
  Claim C6. Running the extraction a second time for the same document and split leaves the
  store as the first run left it: the same rows, the same number of rows, and no duplicate
  row if there was none before. The same holds for a second run over a batch of documents.
\<close>

theorem extraction_idempotent:
  "extract_document E (extract_document E store doc split) doc split
     = extract_document E store doc split \<and>
   length (extract_document E (extract_document E store doc split) doc split)
     = length (extract_document E store doc split) \<and>
   (distinct store \<longrightarrow> distinct (extract_document E store doc split)) \<and>
   apply_extractor E (apply_extractor E store docs split) docs split
     = apply_extractor E store docs split"
proof -
  have "extract_document E (extract_document E store doc split) doc split
      = extract_document E store doc split"
    by (rule extract_document_absorbed [of E store doc split]) simp
  moreover have "distinct (extract_document E store doc split)" if "distinct store"
    using that by (simp add: extract_document_def distinct_persist)
  moreover have "apply_extractor E (apply_extractor E store docs split) docs split
      = apply_extractor E store docs split"
    by (rule apply_extractor_absorbed [of E store docs split]) simp
  ultimately show ?thesis by simp
qed

theorem extraction_idempotent_witness:
  "distinct ([] :: figure candidate list) \<and>
   distinct (extract_document png_extractor [] doc_a 0) \<and>
   extract_document png_extractor (extract_document png_extractor [] doc_a 0) doc_a 0
     = [\<lparr>cand_doc = doc_a, cand_split = 0, cand_args = [fig_1]\<rparr>]"
proof -
  have d: "distinct ([] :: figure candidate list)" by simp
  from extraction_idempotent [of png_extractor "[]" doc_a 0 "[]"] d extract_png_extractor
  show ?thesis by simp
qed

text \<open>
  Claim C7. Every row that a run of the extractor adds to the store is a tuple that all
  matchers accept and that the throttler, when there is one, accepts; it is tagged with a
  document of the batch and with the requested split.
\<close>

theorem stored_candidates_accepted:
  assumes "c \<in> set (apply_extractor E store docs split)" "c \<notin> set store"
  shows "matches E (cand_args c) \<and> passes_throttler E (cand_args c) \<and>
         cand_doc c \<in> set docs \<and> cand_split c = split"
  using assms by (auto simp: set_apply_extractor dest: surviving_accepted)

theorem stored_candidates_accepted_witness:
  "\<lparr>cand_doc = doc_a, cand_split = 0, cand_args = [fig_1]\<rparr>
      \<in> set (apply_extractor png_extractor [] [doc_a] 0) \<and>
   \<lparr>cand_doc = doc_a, cand_split = 0, cand_args = [fig_1]\<rparr> \<notin> set [] \<and>
   matches png_extractor [fig_1] \<and> passes_throttler png_extractor [fig_1]"
proof -
  have m: "\<lparr>cand_doc = doc_a, cand_split = 0, cand_args = [fig_1]\<rparr>
      \<in> set (apply_extractor png_extractor [] [doc_a] 0)"
    by (simp add: extract_png_extractor)
  have n: "\<lparr>cand_doc = doc_a, cand_split = 0, cand_args = [fig_1]\<rparr> \<notin> set []" by simp
  from stored_candidates_accepted [OF m n] m n show ?thesis by simp
qed

text \<open>
  Claim C10. \<^verbatim>\<open>do_nothing_matcher\<close> returns \<^verbatim>\<open>True\<close> for every input, so with the extractor of
  the notebook (this matcher, no throttler) every figure that the candidate space enumerates
  for a document of the batch is a stored candidate of that document.
\<close>

theorem accept_all_stores_every_figure:
  "(\<forall>fig. do_nothing_matcher fig) \<and>
   (doc \<in> set docs \<and> f \<in> set (figs doc) \<longrightarrow>
      \<lparr>cand_doc = doc, cand_split = split, cand_args = [f]\<rparr>
        \<in> set (apply_extractor (candidate_extractor figs) store docs split))"
  by (auto simp: do_nothing_matcher_def set_apply_extractor surviving_candidate_extractor)

theorem accept_all_stores_every_figure_witness:
  "doc_a \<in> set [doc_a, doc_b] \<and> fig_2 \<in> set (figs_of_a doc_a) \<and>
   \<lparr>cand_doc = doc_a, cand_split = 0, cand_args = [fig_2]\<rparr>
      \<in> set (apply_extractor (candidate_extractor figs_of_a) [] [doc_a, doc_b] 0)"
proof -
  have a: "doc_a \<in> set [doc_a, doc_b]" by simp
  have b: "fig_2 \<in> set (figs_of_a doc_a)" by (simp add: figs_of_a_def)
  from accept_all_stores_every_figure [of doc_a "[doc_a, doc_b]" fig_2 figs_of_a 0 "[]"] a b
  show ?thesis by blast
qed

end
